theory Spec2Isabelle
  imports Main
begin

section \<open>JavaScript numbers and values\<close>

text \<open>
  The controller stores its indexes, offsets and heights in JavaScript numbers and uses
  \<open>NaN\<close> as the "unset" sentinel of an index. A number is modelled as \<open>NaN\<close> or an
  integer; fractions and infinities are outside the model. Indexes and pixel positions
  are added and subtracted exactly; the cumulative heights, which add up over all rows,
  are rounded as double precision addition rounds them (\<open>roundToDouble\<close> below). The value
  \<open>undefined\<close> that an out-of-range array read yields is only ever used by the controller
  in arithmetic, in comparisons and on the left of \<open>|| 0\<close>, where it behaves as \<open>NaN\<close>
  does, so such a read yields \<open>NaN\<close> here.

  Names follow the source; the trailing underscore of a private member is written as a
  prime (\<open>startIndex'\<close> is the field \<open>this.startIndex_\<close>, \<open>startIndex\<close> the public
  method).
\<close>

datatype jsnum = NaN | Num int

fun isNaN :: "jsnum \<Rightarrow> bool" where
  "isNaN NaN = True"
| "isNaN (Num _) = False"

fun jadd :: "jsnum \<Rightarrow> jsnum \<Rightarrow> jsnum" where
  "jadd (Num a) (Num b) = Num (a + b)"
| "jadd _ _ = NaN"

fun jsub :: "jsnum \<Rightarrow> jsnum \<Rightarrow> jsnum" where
  "jsub (Num a) (Num b) = Num (a - b)"
| "jsub _ _ = NaN"

fun jlt :: "jsnum \<Rightarrow> jsnum \<Rightarrow> bool" where
  "jlt (Num a) (Num b) = (a < b)"
| "jlt _ _ = False"

fun jgt :: "jsnum \<Rightarrow> jsnum \<Rightarrow> bool" where
  "jgt (Num a) (Num b) = (a > b)"
| "jgt _ _ = False"

fun jge :: "jsnum \<Rightarrow> jsnum \<Rightarrow> bool" where
  "jge (Num a) (Num b) = (a \<ge> b)"
| "jge _ _ = False"

text \<open>\<open>a == b\<close> and \<open>a != b\<close> on numbers: \<open>NaN\<close> differs from everything, itself included.\<close>

fun jeq :: "jsnum \<Rightarrow> jsnum \<Rightarrow> bool" where
  "jeq (Num a) (Num b) = (a = b)"
| "jeq _ _ = False"

definition jne :: "jsnum \<Rightarrow> jsnum \<Rightarrow> bool" where
  "jne a b = (\<not> jeq a b)"

fun Math_min :: "jsnum \<Rightarrow> jsnum \<Rightarrow> jsnum" where
  "Math_min (Num a) (Num b) = Num (min a b)"
| "Math_min _ _ = NaN"

fun Math_max :: "jsnum \<Rightarrow> jsnum \<Rightarrow> jsnum" where
  "Math_max (Num a) (Num b) = Num (max a b)"
| "Math_max _ _ = NaN"

text \<open>Truthiness of a number: \<open>0\<close> and \<open>NaN\<close> are falsy.\<close>

fun truthy :: "jsnum \<Rightarrow> bool" where
  "truthy NaN = False"
| "truthy (Num n) = (n \<noteq> 0)"

text \<open>\<open>a || b\<close> on numbers.\<close>

definition jor :: "jsnum \<Rightarrow> jsnum \<Rightarrow> jsnum" where
  "jor a b = (if truthy a then a else b)"

text \<open>
  Values of data fields. Strings and objects as field values are outside the model
  (period arrays have a type of their own below).
\<close>

datatype jsval = Undefined | Null | Boolean bool | Number jsnum

fun truthyVal :: "jsval \<Rightarrow> bool" where
  "truthyVal Undefined = False"
| "truthyVal Null = False"
| "truthyVal (Boolean b) = b"
| "truthyVal (Number n) = truthy n"

text \<open>\<open>goog.isDef(v)\<close> is \<open>v !== undefined\<close>.\<close>

fun isDef :: "jsval \<Rightarrow> bool" where
  "isDef Undefined = False"
| "isDef _ = True"

text \<open>
  Modelled from the spec: \<open>anychart.utils.toNumber\<close> is not under src/. The spec says that
  a row height override counts when it is "present and numeric" and that "non-numeric or
  missing row-height overrides fall back to the fixed default height": a number is itself,
  every other value (missing or not a number) is \<open>NaN\<close>, which sends \<open>getItemHeight\<close> to the
  default.
\<close>

fun toNumber :: "jsval \<Rightarrow> jsnum" where
  "toNumber Undefined = NaN"
| "toNumber Null = NaN"
| "toNumber (Boolean b) = NaN"
| "toNumber (Number n) = n"

text \<open>
  Double precision addition of two integers. A double has a significand of 53 bits: an
  integer of magnitude up to \<open>2^53\<close> is a double, a larger integer with \<open>L\<close> binary digits
  is rounded to the nearest multiple of \<open>2^(L - 53)\<close>, a tie going to the even multiple.
  The operands are doubles themselves. (A sum of magnitude \<open>2^1024\<close> is infinite in
  JavaScript and outside the model.)
\<close>

function bitLength :: "int \<Rightarrow> nat" where
  "bitLength x = (if x \<le> 0 then 0 else Suc (bitLength (x div 2)))"
  by pat_completeness auto
termination
  by (relation "measure nat") auto

declare bitLength.simps [simp del]

definition roundToDouble :: "int \<Rightarrow> int" where
  "roundToDouble x =
     (if \<bar>x\<bar> \<le> 2 ^ 53 then x
      else
        let ulp = 2 ^ (bitLength \<bar>x\<bar> - 53);
            q = \<bar>x\<bar> div ulp;
            r = \<bar>x\<bar> mod ulp;
            m = (if 2 * r < ulp then q
                 else if 2 * r > ulp then q + 1
                 else if even q then q else q + 1)
        in sgn x * (m * ulp))"

definition dadd :: "int \<Rightarrow> int \<Rightarrow> int" where
  "dadd a b = roundToDouble (a + b)"

text \<open>The integers that are doubles: those that rounding leaves as they are.\<close>

definition isDouble :: "int \<Rightarrow> bool" where
  "isDouble x = (\<bar>x\<bar> \<le> 2 ^ 53 \<or> 2 ^ (bitLength \<bar>x\<bar> - 53) dvd x)"

text \<open>
  An array read \<open>arr[i]\<close>: the element when \<open>i\<close> is an index of the array, otherwise
  \<open>undefined\<close> (here \<open>NaN\<close>, see above).
\<close>

fun arrayGet :: "int list \<Rightarrow> jsnum \<Rightarrow> jsnum" where
  "arrayGet arr NaN = NaN"
| "arrayGet arr (Num i) = (if 0 \<le> i \<and> i < int (length arr) then Num (arr ! nat i) else NaN)"

section \<open>The tree and the controller\<close>

text \<open>
  A period of a resource: the fields the controller reads. A property key is a string.
\<close>

record period =
  ID :: string
  START :: jsval
  END :: jsval

text \<open>
  The fields of a tree data item that the controller reads (\<open>item.get(...)\<close>); \<open>PERIODS\<close>
  is \<open>None\<close> when the field is not an array (\<open>goog.isArray\<close> fails).
\<close>

record itemFields =
  ACTUAL_START :: jsval
  ACTUAL_END :: jsval
  BASELINE_START :: jsval
  BASELINE_END :: jsval
  ROW_HEIGHT :: jsval
  PERIODS :: "period list option"
  COLLAPSED :: jsval

text \<open>The meta information the controller writes on an item (\<open>item.meta(...)\<close>).\<close>

record itemMeta =
  meta_depth :: "nat option"
  meta_index :: "nat option"
  meta_COLLAPSED :: jsval

datatype item = Item (get: itemFields) (meta: itemMeta) (children: "item list")

definition numChildren :: "item \<Rightarrow> nat" where
  "numChildren it = length (children it)"

datatype cstate = DATA | VISIBILITY | POSITION

datatype error = TypeError

text \<open>
  The controller. \<open>data'\<close> is \<open>None\<close> for \<open>null\<close>, otherwise the roots of the tree.
  \<open>expandedItemsTraverser'\<close> is set together with \<open>data'\<close> and is a traverser of that
  tree, so it has no field of its own. The related data grid, timeline and scroll bar only
  receive the resolved position and have no field here. \<open>periodsMap'\<close> holds the own
  properties of the map object.
\<close>

record controller =
  isResourceChart' :: bool
  periodsMap' :: "string \<rightharpoonup> period"
  data' :: "item list option"
  visibleData' :: "item list"
  heightCache' :: "int list"
  startIndex' :: jsnum
  endIndex' :: jsnum
  verticalOffset' :: jsnum
  availableHeight' :: jsnum
  positionRecalculated' :: bool
  minDate' :: jsnum
  maxDate' :: jsnum
  consistency' :: "cstate set"

text \<open>
  The constants \<open>anychart.core.ui.DataGrid.DEFAULT_ROW_HEIGHT\<close> and
  \<open>anychart.core.ui.DataGrid.ROW_SPACE\<close> are declared outside src/ and are parameters.
\<close>

record dataGridConsts =
  DEFAULT_ROW_HEIGHT :: int
  ROW_SPACE :: int

text \<open>
  Modelled from the spec: the consistency states of \<open>anychart.core.Base\<close>, which is not
  under src/: "Dirty-State Flags: DATA, VISIBILITY, POSITION -- independent bits"; a state
  is marked dirty by \<open>invalidate\<close> and clean by \<open>markConsistent\<close>, and a new object is
  consistent. The signals dispatched on invalidation go to listeners outside the
  controller and are not modelled.
\<close>

definition invalidate :: "controller \<Rightarrow> cstate set \<Rightarrow> controller" where
  "invalidate c state = c\<lparr>consistency' := consistency' c \<union> state\<rparr>"

definition markConsistent :: "controller \<Rightarrow> cstate set \<Rightarrow> controller" where
  "markConsistent c state = c\<lparr>consistency' := consistency' c - state\<rparr>"

definition isConsistent :: "controller \<Rightarrow> bool" where
  "isConsistent c = (consistency' c = {})"

definition hasInvalidationState :: "controller \<Rightarrow> cstate \<Rightarrow> bool" where
  "hasInvalidationState c state = (state \<in> consistency' c)"

text \<open>The constructor.\<close>

definition Controller :: "bool \<Rightarrow> controller" where
  "Controller opt_isResourceChart =
     \<lparr> isResourceChart' = opt_isResourceChart,
       periodsMap' = Map.empty,
       data' = None,
       visibleData' = [],
       heightCache' = [],
       startIndex' = NaN,
       endIndex' = NaN,
       verticalOffset' = Num 0,
       availableHeight' = Num 0,
       positionRecalculated' = False,
       minDate' = NaN,
       maxDate' = NaN,
       consistency' = {} \<rparr>"

definition getItemHeight :: "dataGridConsts \<Rightarrow> item \<Rightarrow> int" where
  "getItemHeight G it =
     (case jor (toNumber (ROW_HEIGHT (get it))) (Num (DEFAULT_ROW_HEIGHT G)) of
        Num h \<Rightarrow> h
      | NaN \<Rightarrow> DEFAULT_ROW_HEIGHT G)"

definition traverseChildrenCondition' :: "item \<Rightarrow> bool" where
  "traverseChildrenCondition' it = (\<not> truthyVal (meta_COLLAPSED (meta it)))"

section \<open>Height cache queries\<close>

definition getHeightByIndexes' :: "controller \<Rightarrow> jsnum \<Rightarrow> jsnum option \<Rightarrow> jsnum" where
  "getHeightByIndexes' c startIndex opt_endIndex =
     (if length (heightCache' c) = 0 then Num 0
      else
        let cacheEnd = Num (int (length (heightCache' c)) - 1);
            startIndex1 = Math_min startIndex cacheEnd;
            endIndex1 = (case opt_endIndex of
                           Some e \<Rightarrow> Math_min e cacheEnd
                         | None \<Rightarrow> cacheEnd);
            (startIndex2, endIndex2) =
               (if jgt startIndex1 endIndex1 then
                  (let s = jsub startIndex1 endIndex1;
                       e = jadd endIndex1 s;
                       s' = jsub e s
                   in (s', e))
                else (startIndex1, endIndex1));
            startHeight = jor (arrayGet (heightCache' c) (jsub startIndex2 (Num 1))) (Num 0)
        in jsub (arrayGet (heightCache' c) endIndex2) startHeight)"

text \<open>
  Modelled from the spec: \<open>goog.array.binarySearch\<close> and \<open>goog.array.defaultCompare\<close>
  belong to the Closure Library, which is not under src/. The spec describes the lookup
  built on them as a "lower-bound binary search over the cumulative sums" that "returns
  the smallest index \<open>i\<close> such that \<open>cache[i] >= targetHeight\<close>"; the source relies on the
  library's result convention (the index of the target when it is found, the bitwise
  complement of the insertion point otherwise). The comparison is
  \<open>a > b ? 1 : a < b ? -1 : 0\<close>; the loop narrows \<open>[left, right)\<close> and looks for the
  lowest index.
\<close>

definition defaultCompare :: "jsnum \<Rightarrow> jsnum \<Rightarrow> int" where
  "defaultCompare a b = (if jgt a b then 1 else if jlt a b then - 1 else 0)"

function binarySearch' :: "int list \<Rightarrow> jsnum \<Rightarrow> nat \<Rightarrow> nat \<Rightarrow> bool \<Rightarrow> nat \<times> bool" where
  "binarySearch' arr target left right found =
     (if left < right then
        (let middle = (left + right) div 2;
             compareResult = defaultCompare target (arrayGet arr (Num (int middle)))
         in if compareResult > 0 then binarySearch' arr target (middle + 1) right found
            else binarySearch' arr target left middle (compareResult = 0))
      else (left, found))"
  by pat_completeness auto
termination
  by (relation "measure (\<lambda>(arr, target, left, right, found). right - left)") auto

text \<open>The equation of the loop unfolds without end; it is applied by hand.\<close>

declare binarySearch'.simps [simp del]

definition binarySearch :: "int list \<Rightarrow> jsnum \<Rightarrow> int" where
  "binarySearch arr target =
     (case binarySearch' arr target 0 (length arr) False of
        (left, found) \<Rightarrow> if found then int left else - int left - 1)"

text \<open>\<open>~index\<close> on a 32-bit integer is \<open>- index - 1\<close>.\<close>

definition getIndexByHeight' :: "controller \<Rightarrow> jsnum \<Rightarrow> jsnum" where
  "getIndexByHeight' c height =
     (let index = binarySearch (heightCache' c) height
      in Num (if index \<ge> 0 then index else - index - 1))"


section \<open>Position resolution\<close>

text \<open>
  \<open>recalculate\<close>, with the branch it took recorded beside the new state. The branches
  are, in the order of the source: the empty visible set, the content fits, start index
  set and "going from end of list", start index set and kept, end index set and "going
  from start of list", end index set and kept.
\<close>

datatype branch = EmptySet | Fits | StartGoingFromEnd | StartKept | EndGoingFromStart | EndKept

definition recalculateBranch :: "controller \<Rightarrow> branch \<times> controller" where
  "recalculateBranch c =
     (if length (visibleData' c) \<noteq> 0 then
        (let totalHeight = getHeightByIndexes' c (Num 0) (Some (Num (int (length (heightCache' c)) - 1)))
         in if jge (availableHeight' c) totalHeight then
              (Fits, c\<lparr>startIndex' := Num 0, verticalOffset' := Num 0,
                       endIndex' := Num (int (length (visibleData' c)) - 1)\<rparr>)
            else
              (let c1 = (if isNaN (startIndex' c) \<and> isNaN (endIndex' c)
                         then c\<lparr>startIndex' := Num 0\<rparr> else c)
               in if \<not> isNaN (startIndex' c1) then
                    (let totalHeight1 = jsub (getHeightByIndexes' c1 (startIndex' c1) None) (verticalOffset' c1)
                     in if jlt totalHeight1 (availableHeight' c1) then
                          (let c2 = c1\<lparr>startIndex' := getIndexByHeight' c1
                                       (jsub (arrayGet (heightCache' c1) (Num (int (length (heightCache' c1)) - 1)))
                                             (availableHeight' c1))\<rparr>;
                               c3 = c2\<lparr>endIndex' := Num (int (length (heightCache' c2)) - 1)\<rparr>
                           in (StartGoingFromEnd,
                               c3\<lparr>verticalOffset' :=
                                    jsub (getHeightByIndexes' c3 (startIndex' c3) (Some (endIndex' c3)))
                                         (availableHeight' c3)\<rparr>))
                        else
                          (let height = (if jeq (startIndex' c1) (Num 0) then Num 0
                                         else arrayGet (heightCache' c1) (jsub (startIndex' c1) (Num 1)))
                           in (StartKept,
                               c1\<lparr>endIndex' := getIndexByHeight' c1
                                    (jadd (jadd height (availableHeight' c1)) (verticalOffset' c1))\<rparr>)))
                  else
                    (let totalHeight1 = getHeightByIndexes' c1 (Num 0) (Some (endIndex' c1))
                     in if jlt totalHeight1 (availableHeight' c1) then
                          (EndGoingFromStart,
                           c1\<lparr>startIndex' := Num 0, verticalOffset' := Num 0,
                                endIndex' := getIndexByHeight' c1 (availableHeight' c1)\<rparr>)
                        else
                          (let c2 = c1\<lparr>startIndex' := getIndexByHeight' c1
                                       (jsub (arrayGet (heightCache' c1) (endIndex' c1)) (availableHeight' c1))\<rparr>
                           in (EndKept,
                               c2\<lparr>verticalOffset' :=
                                    jsub (getHeightByIndexes' c2 (startIndex' c2) (Some (endIndex' c2)))
                                         (availableHeight' c2)\<rparr>)))))
      else (EmptySet, c\<lparr>startIndex' := Num 0, endIndex' := Num 0, verticalOffset' := Num 0\<rparr>))"

definition recalculate :: "controller \<Rightarrow> controller" where
  "recalculate c =
     markConsistent ((snd (recalculateBranch c))\<lparr>positionRecalculated' := True\<rparr>) {POSITION}"

definition getPeriodsMap :: "controller \<Rightarrow> (string \<rightharpoonup> period)" where
  "getPeriodsMap c = periodsMap' c"

section \<open>Settings\<close>

text \<open>
  Each accessor of the source is a getter when called without an argument and a setter
  (returning the controller) when called with one; the getter is the field itself, the
  definitions below are the setters. In \<open>data\<close>, two trees are the same object when they
  are equal.
\<close>

definition data :: "controller \<Rightarrow> item list \<Rightarrow> controller" where
  "data c opt_value =
     (if data' c \<noteq> Some opt_value
      then invalidate (c\<lparr>data' := Some opt_value\<rparr>) {DATA}
      else c)"

definition verticalOffset :: "controller \<Rightarrow> jsnum \<Rightarrow> controller" where
  "verticalOffset c opt_value =
     (if jne (verticalOffset' c) opt_value
      then invalidate (c\<lparr>verticalOffset' := opt_value\<rparr>) {POSITION}
      else c)"

definition startIndex :: "controller \<Rightarrow> jsnum \<Rightarrow> controller" where
  "startIndex c opt_value =
     (if jne (startIndex' c) opt_value \<and> \<not> isNaN opt_value
      then invalidate (c\<lparr>startIndex' := opt_value, endIndex' := NaN\<rparr>) {POSITION}
      else c)"

definition endIndex :: "controller \<Rightarrow> jsnum \<Rightarrow> controller" where
  "endIndex c opt_value =
     (if jne (endIndex' c) opt_value \<and> \<not> isNaN opt_value
      then invalidate (c\<lparr>endIndex' := opt_value, startIndex' := NaN\<rparr>) {POSITION}
      else c)"

definition availableHeight :: "controller \<Rightarrow> jsnum \<Rightarrow> controller" where
  "availableHeight c opt_value =
     (if jne (availableHeight' c) opt_value
      then invalidate (c\<lparr>availableHeight' := opt_value\<rparr>) {POSITION}
      else c)"


section \<open>Linearization\<close>

definition checkDate' :: "controller \<Rightarrow> jsval \<Rightarrow> controller" where
  "checkDate' c date =
     (case date of
        Number (Num d) \<Rightarrow>
          (let c1 = (if isNaN (minDate' c) then c\<lparr>minDate' := Num d, maxDate' := Num d\<rparr> else c);
               c2 = (if jlt (Num d) (minDate' c1) then c1\<lparr>minDate' := Num d\<rparr> else c1)
           in if jgt (Num d) (maxDate' c2) then c2\<lparr>maxDate' := Num d\<rparr> else c2)
      | _ \<Rightarrow> c)"

text \<open>
  The periods map is a plain object (\<open>{}\<close>), so reading a key that is not an own property
  yields the property inherited from \<open>Object.prototype\<close>, which is truthy for the names
  below.
\<close>

definition inheritedProperty :: "string \<Rightarrow> bool" where
  "inheritedProperty k =
     (k \<in> set [''constructor'', ''toString'', ''toLocaleString'', ''valueOf'',
                ''hasOwnProperty'', ''isPrototypeOf'', ''propertyIsEnumerable'', ''__proto__'',
                ''__defineGetter__'', ''__defineSetter__'', ''__lookupGetter__'',
                ''__lookupSetter__''])"

text \<open>
  The loop over the periods of one item: \<open>periodsMap_[periodId]\<close> is truthy when the key
  is an own property (a period is an object) or an inherited one.
\<close>

fun periodsLoop :: "period list \<Rightarrow> controller \<Rightarrow> controller" where
  "periodsLoop [] c = c"
| "periodsLoop (period # rest) c =
     (let periodId = ID period;
          c1 = (if \<not> (periodsMap' c periodId \<noteq> None \<or> inheritedProperty periodId)
                then c\<lparr>periodsMap' := (periodsMap' c)(periodId \<mapsto> period)\<rparr> else c);
          c2 = checkDate' c1 (START period);
          c3 = checkDate' c2 (END period)
      in periodsLoop rest c3)"

text \<open>
  The body of the loop of \<open>linearizeData_\<close> for one item at the given depth and linear
  index: the new meta information of the item and the new controller.
\<close>

definition linearizeBody :: "nat \<Rightarrow> nat \<Rightarrow> item \<Rightarrow> controller \<Rightarrow> itemMeta \<times> controller" where
  "linearizeBody depth linearIndex it c =
     (let c1 = checkDate' c (ACTUAL_START (get it));
          c2 = checkDate' c1 (ACTUAL_END (get it));
          c3 = checkDate' c2 (BASELINE_START (get it));
          c4 = checkDate' c3 (BASELINE_END (get it));
          m1 = (meta it)\<lparr>meta_depth := Some depth, meta_index := Some linearIndex\<rparr>;
          c5 = (if isResourceChart' c4 then
                  (let c4' = c4\<lparr>periodsMap' := Map.empty\<rparr>
                   in case PERIODS (get it) of
                        Some periods \<Rightarrow> periodsLoop periods c4'
                      | None \<Rightarrow> c4')
                else c4);
          m2 = (if numChildren it \<noteq> 0 \<and> isDef (COLLAPSED (get it))
                then m1\<lparr>meta_COLLAPSED := COLLAPSED (get it)\<rparr> else m1)
      in (m2, c5))"

text \<open>
  Modelled from the spec: the traverser of the tree (\<open>anychart.data.Tree\<close> and its
  traverser are not under src/) is "a pre-order traverser (optionally filtered by a
  per-node descend predicate)": "upon visiting a node whose collapse predicate is true,
  [it] does not descend into its children (but the node itself is still visible)". Roots
  are at depth 0. \<open>traverser cond roots\<close> is the sequence of items that repeated
  \<open>advance()\<close>/\<open>current()\<close> yields.
\<close>

fun traverse :: "(item \<Rightarrow> bool) \<Rightarrow> item \<Rightarrow> item list" where
  "traverse cond (Item f m cs) =
     Item f m cs # (if cond (Item f m cs) then concat (map (traverse cond) cs) else [])"

definition traverser :: "(item \<Rightarrow> bool) \<Rightarrow> item list \<Rightarrow> item list" where
  "traverser cond roots = concat (map (traverse cond) roots)"

text \<open>
  The loop of \<open>linearizeData_\<close> over the full passage traverser (no condition): each item
  is visited before its children, the body runs at every visit and writes the item's meta
  information in place; \<open>linearIndex\<close> counts the visits.
\<close>

fun linearizeItem :: "nat \<Rightarrow> item \<Rightarrow> controller \<times> nat \<Rightarrow> item \<times> (controller \<times> nat)"
  and linearizeItems :: "nat \<Rightarrow> item list \<Rightarrow> controller \<times> nat \<Rightarrow> item list \<times> (controller \<times> nat)"
where
  "linearizeItem depth (Item f m cs) (c, linearIndex) =
     (case linearizeBody depth linearIndex (Item f m cs) c of
        (m', c') \<Rightarrow>
          (case linearizeItems (depth + 1) cs (c', linearIndex + 1) of
             (cs', s') \<Rightarrow> (Item f m' cs', s')))"
| "linearizeItems depth [] s = ([], s)"
| "linearizeItems depth (it # its) s =
     (case linearizeItem depth it s of
        (it', s') \<Rightarrow>
          (case linearizeItems depth its s' of
             (its', s'') \<Rightarrow> (it' # its', s'')))"

text \<open>Calling a method of \<open>this.data_\<close> while it is \<open>null\<close> throws a \<open>TypeError\<close>.\<close>

definition linearizeData' :: "controller \<Rightarrow> error + controller" where
  "linearizeData' c =
     (let c0 = c\<lparr>minDate' := NaN, maxDate' := NaN\<rparr>
      in case data' c0 of
           None \<Rightarrow> Inl TypeError
         | Some roots \<Rightarrow>
             (case linearizeItems 0 roots (c0, 0) of
                (roots', (c1, linearIndex)) \<Rightarrow> Inr (c1\<lparr>data' := Some roots'\<rparr>)))"

section \<open>Visible data\<close>

text \<open>
  The loop of \<open>getVisibleData_\<close> over the items the traverser still has to yield. Both
  additions of \<open>height += (getItemHeight(item) + ROW_SPACE)\<close> are double precision
  additions.
\<close>

fun visibleLoop :: "dataGridConsts \<Rightarrow> item list \<Rightarrow> controller \<Rightarrow> int \<Rightarrow> controller" where
  "visibleLoop G [] c height = c"
| "visibleLoop G (it # its) c height =
     (let c1 = c\<lparr>visibleData' := visibleData' c @ [it]\<rparr>;
          height1 = dadd height (dadd (getItemHeight G it) (ROW_SPACE G));
          c2 = c1\<lparr>heightCache' := heightCache' c1 @ [height1]\<rparr>
      in visibleLoop G its c2 height1)"

text \<open>
  \<open>expandedItemsTraverser_\<close> is \<open>null\<close> exactly when \<open>data_\<close> is; resetting it then
  throws a \<open>TypeError\<close>.
\<close>

definition getVisibleData' :: "dataGridConsts \<Rightarrow> controller \<Rightarrow> error + controller" where
  "getVisibleData' G c =
     (let c0 = c\<lparr>visibleData' := [], heightCache' := []\<rparr>
      in case data' c0 of
           None \<Rightarrow> Inl TypeError
         | Some roots \<Rightarrow> Inr (visibleLoop G (traverser traverseChildrenCondition' roots) c0 0))"

section \<open>Running and scrolling\<close>

text \<open>
  \<open>run\<close>: the cascade over the consistency states. Drawing the data grid and the timeline
  and positioning the scroll bar hand the resolved state to those objects and change
  nothing in the controller.
\<close>

definition run :: "dataGridConsts \<Rightarrow> controller \<Rightarrow> error + controller" where
  "run G c =
     (if \<not> isConsistent c then
        (case (if hasInvalidationState c DATA then
                 (case linearizeData' c of
                    Inl e \<Rightarrow> Inl e
                  | Inr c' \<Rightarrow> Inr (invalidate (markConsistent c' {DATA}) {VISIBILITY}))
               else Inr c) of
           Inl e \<Rightarrow> Inl e
         | Inr c1 \<Rightarrow>
             (case (if hasInvalidationState c1 VISIBILITY then
                      (case getVisibleData' G c1 of
                         Inl e \<Rightarrow> Inl e
                       | Inr c' \<Rightarrow> Inr (invalidate (markConsistent c' {VISIBILITY}) {POSITION}))
                    else Inr c1) of
                Inl e \<Rightarrow> Inl e
              | Inr c2 \<Rightarrow> Inr ((recalculate c2)\<lparr>positionRecalculated' := False\<rparr>)))
      else Inr (c\<lparr>positionRecalculated' := False\<rparr>))"

definition scrollTo :: "dataGridConsts \<Rightarrow> controller \<Rightarrow> jsnum \<Rightarrow> error + controller" where
  "scrollTo G c pxOffset0 =
     (let pxOffset = Math_max pxOffset0 (Num 0);
          totalHeight = arrayGet (heightCache' c) (Num (int (length (heightCache' c)) - 1))
      in if truthy pxOffset then
           (let c1 = (if jgt pxOffset (jsub totalHeight (availableHeight' c)) then
                        endIndex c (Num (int (length (heightCache' c))))
                      else
                        (let itemIndex = getIndexByHeight' c pxOffset;
                             previousHeight = (if truthy itemIndex
                                               then arrayGet (heightCache' c) (jsub itemIndex (Num 1))
                                               else Num 0);
                             verticalOffset1 = jsub itemIndex previousHeight
                         in startIndex (verticalOffset c verticalOffset1) itemIndex))
            in run G c1)
         else Inr c)"


section \<open>Reference definitions and example data\<close>


text \<open>
  The cumulative heights of a sequence of rows on top of a starting height, in the words
  of the specification of the height cache.
\<close>

fun spec_cumulative :: "dataGridConsts \<Rightarrow> int \<Rightarrow> item list \<Rightarrow> int list" where
  "spec_cumulative G h [] = []"
| "spec_cumulative G h (it # its) =
     (h + (getItemHeight G it + ROW_SPACE G))
       # spec_cumulative G (h + (getItemHeight G it + ROW_SPACE G)) its"

text \<open>
  The additions over a sequence of rows are exact: every item height plus row spacing and
  every cumulative height is an integer of magnitude at most \<open>2^53\<close>.
\<close>

definition spec_exact :: "dataGridConsts \<Rightarrow> item list \<Rightarrow> bool" where
  "spec_exact G its =
     ((\<forall>it\<in>set its. \<bar>getItemHeight G it + ROW_SPACE G\<bar> \<le> 2 ^ 53)
      \<and> (\<forall>x\<in>set (spec_cumulative G 0 its). \<bar>x\<bar> \<le> 2 ^ 53))"

text \<open>
  Example data: rows without children, a tree of five rows of height 10 with row spacing
  0, and the controller after that tree was set, 25 pixels were made available and the
  controller was run.
\<close>

definition exampleConsts :: dataGridConsts where
  "exampleConsts = \<lparr> DEFAULT_ROW_HEIGHT = 20, ROW_SPACE = 0 \<rparr>"

definition exampleRow :: "int \<Rightarrow> item" where
  "exampleRow h =
     Item \<lparr> ACTUAL_START = Undefined, ACTUAL_END = Undefined, BASELINE_START = Undefined,
            BASELINE_END = Undefined, ROW_HEIGHT = Number (Num h), PERIODS = None,
            COLLAPSED = Undefined \<rparr>
          \<lparr> meta_depth = None, meta_index = None, meta_COLLAPSED = Undefined \<rparr> []"

definition exampleController :: controller where
  "exampleController =
     projr (run exampleConsts
              (availableHeight (data (Controller False) (replicate 5 (exampleRow 10))) (Num 25)))"

text \<open>
  The period that a lookup of key \<open>k\<close> finds when the map was filled from the periods of
  one item only: the first period of the item with that id.
\<close>

definition spec_firstPeriod :: "item \<Rightarrow> string \<Rightarrow> period option" where
  "spec_firstPeriod it k =
     (case PERIODS (get it) of
        None \<Rightarrow> None
      | Some periods \<Rightarrow> if inheritedProperty k then None else find (\<lambda>p. ID p = k) periods)"

text \<open>
  Example data for a resource chart: a period with an id and a start, a resource item with
  periods, and a controller in resource mode whose tree has two resources, the first
  declaring a period \<open>P1\<close> and the second a period \<open>P2\<close>.
\<close>

definition examplePeriod :: "string \<Rightarrow> int \<Rightarrow> period" where
  "examplePeriod k s = \<lparr> ID = k, START = Number (Num s), END = Number (Num (s + 1)) \<rparr>"

definition exampleResource :: "period list \<Rightarrow> item" where
  "exampleResource periods =
     Item \<lparr> ACTUAL_START = Undefined, ACTUAL_END = Undefined, BASELINE_START = Undefined,
            BASELINE_END = Undefined, ROW_HEIGHT = Undefined, PERIODS = Some periods,
            COLLAPSED = Undefined \<rparr>
          \<lparr> meta_depth = None, meta_index = None, meta_COLLAPSED = Undefined \<rparr> []"

definition exampleResourceController :: controller where
  "exampleResourceController =
     data (Controller True)
       [exampleResource [examplePeriod ''P1'' 1],
        exampleResource [examplePeriod ''P2'' 5]]"

section \<open>The example controller\<close>

text \<open>The run that defines the example controller succeeds; these are its fields.\<close>

lemma exampleController_run:
  "\<not> isl (run exampleConsts
            (availableHeight (data (Controller False) (replicate 5 (exampleRow 10))) (Num 25)))"
  by code_simp

lemma exampleController_fields:
  "heightCache' exampleController = [10, 20, 30, 40, 50]"
  "length (visibleData' exampleController) = 5"
  "availableHeight' exampleController = Num 25"
  "startIndex' exampleController = Num 0"
  "endIndex' exampleController = Num 2"
  "verticalOffset' exampleController = Num 0"
  "consistency' exampleController = {}"
  by code_simp+

section \<open>Height cache queries\<close>

lemma getHeightByIndexes_cache:
  "heightCache' c = heightCache' d \<Longrightarrow> getHeightByIndexes' c a b = getHeightByIndexes' d a b"
  by (simp add: getHeightByIndexes'_def)

lemma getHeightByIndexes_total:
  "heightCache' c \<noteq> [] \<Longrightarrow>
     getHeightByIndexes' c (Num 0) (Some (Num (int (length (heightCache' c)) - 1)))
       = Num (last (heightCache' c))"
  by (simp add: getHeightByIndexes'_def Let_def jor_def last_conv_nth nat_diff_distrib')







text \<open>
  On a sorted cache the search ends at the lower bound of the height: every entry before
  the index is smaller than the height and every entry from the index on is at least the
  height.
\<close>

lemma binarySearch_bounds:
  assumes "sorted arr" and "left \<le> right" and "right \<le> length arr"
    and "\<forall>i<left. arr ! i < h"
    and "\<forall>i. right \<le> i \<and> i < length arr \<longrightarrow> h \<le> arr ! i"
  shows "fst (binarySearch' arr (Num h) left right found) \<le> length arr
     \<and> (\<forall>i<fst (binarySearch' arr (Num h) left right found). arr ! i < h)
     \<and> (\<forall>i. fst (binarySearch' arr (Num h) left right found) \<le> i \<and> i < length arr
            \<longrightarrow> h \<le> arr ! i)"
  using assms
proof (induction arr "Num h" left right found rule: binarySearch'.induct)
  case (1 arr left right found)
  show ?case
  proof (cases "left < right")
    case False
    with "1.prems" have "left = right"
      by simp
    with "1.prems" show ?thesis
      by (simp add: binarySearch'.simps [of arr "Num h" right right])
  next
    case True
    define middle where "middle = (left + right) div 2"
    have m: "left \<le> middle" "middle < right" "middle < length arr"
      using True "1.prems"(3) by (simp_all add: middle_def)
    have g: "arrayGet arr (Num (int middle)) = Num (arr ! middle)"
      using m(3) by simp
    show ?thesis
    proof (cases "arr ! middle < h")
      case lt: True
      then have cmp: "defaultCompare (Num h) (arrayGet arr (Num (int middle))) > 0"
        using m(3) by (simp add: defaultCompare_def)
      have below: "\<forall>i<middle + 1. arr ! i < h"
      proof (intro allI impI)
        fix i assume "i < middle + 1"
        then have "i \<le> middle" by simp
        with "1.prems"(1) m(3) have "arr ! i \<le> arr ! middle"
          by (simp add: sorted_nth_mono)
        with lt show "arr ! i < h" by simp
      qed
      have step: "binarySearch' arr (Num h) left right found
                    = binarySearch' arr (Num h) (middle + 1) right found"
        using True cmp
        by (subst binarySearch'.simps) (simp add: Let_def middle_def)
      from "1.hyps"(1) [OF True middle_def refl cmp "1.prems"(1) _ "1.prems"(3) below "1.prems"(5)] m
      show ?thesis
        unfolding step by simp
    next
      case ge: False
      then have cmp: "\<not> defaultCompare (Num h) (arrayGet arr (Num (int middle))) > 0"
        using m(3) by (simp add: defaultCompare_def)
      have above: "\<forall>i. middle \<le> i \<and> i < length arr \<longrightarrow> h \<le> arr ! i"
      proof (intro allI impI)
        fix i assume "middle \<le> i \<and> i < length arr"
        with "1.prems"(1) have "arr ! middle \<le> arr ! i"
          by (simp add: sorted_nth_mono)
        with ge show "h \<le> arr ! i" by simp
      qed
      have step: "binarySearch' arr (Num h) left right found
                    = binarySearch' arr (Num h) left middle
                        (defaultCompare (Num h) (arrayGet arr (Num (int middle))) = 0)"
        using True cmp
        by (subst binarySearch'.simps) (simp add: Let_def middle_def)
      from "1.hyps"(2) [OF True middle_def refl cmp "1.prems"(1) m(1) _ "1.prems"(4) above] m
      show ?thesis
        unfolding step by simp
    qed
  qed
qed

lemma getIndexByHeight_lower_bound:
  assumes "sorted (heightCache' c)"
  shows "\<exists>L. getIndexByHeight' c (Num h) = Num (int L)
     \<and> L \<le> length (heightCache' c)
     \<and> (\<forall>i<L. heightCache' c ! i < h)
     \<and> (\<forall>i. L \<le> i \<and> i < length (heightCache' c) \<longrightarrow> h \<le> heightCache' c ! i)"
proof -
  obtain L found where
    b: "binarySearch' (heightCache' c) (Num h) 0 (length (heightCache' c)) False = (L, found)"
    by (cases "binarySearch' (heightCache' c) (Num h) 0 (length (heightCache' c)) False")
  have "getIndexByHeight' c (Num h) = Num (int L)"
    by (simp add: getIndexByHeight'_def binarySearch_def b Let_def del: binarySearch'.simps)
  moreover from binarySearch_bounds [OF assms, of 0 "length (heightCache' c)" h False]
  have "L \<le> length (heightCache' c)
     \<and> (\<forall>i<L. heightCache' c ! i < h)
     \<and> (\<forall>i. L \<le> i \<and> i < length (heightCache' c) \<longrightarrow> h \<le> heightCache' c ! i)"
    by (simp add: b del: binarySearch'.simps)
  ultimately show ?thesis
    by blast
qed

lemma isNaN_getIndexByHeight [simp]: "\<not> isNaN (getIndexByHeight' c h)"
  by (simp add: getIndexByHeight'_def Let_def)

lemma binarySearch_example: "binarySearch [10, 20, 30, 40, 50] (Num 35) = - 4"
  by code_simp


section \<open>Position resolution\<close>

text \<open>
  Claim C1. With the height cache \<open>[10, 20, 30, 40, 50]\<close> (five visible rows of height
  10, row spacing 0), 25 pixels available, the start index set to 1 and vertical offset 0,
  \<open>recalculate\<close> takes the branch that keeps the start index: the start index stays 1, the
  offset stays 0 and the end index becomes the index for the height \<open>10 + 25 + 0\<close>, which
  is 3.
\<close>

theorem recalculate_start_anchored_example:
  assumes "heightCache' c = [10, 20, 30, 40, 50]"
    and "length (visibleData' c) = 5"
    and "availableHeight' c = Num 25"
    and "startIndex' c = Num 1"
    and "verticalOffset' c = Num 0"
  shows "fst (recalculateBranch c) = StartKept
     \<and> startIndex' (recalculate c) = Num 1
     \<and> verticalOffset' (recalculate c) = Num 0
     \<and> endIndex' (recalculate c) = getIndexByHeight' c (Num (10 + 25 + 0))
     \<and> endIndex' (recalculate c) = Num 3"
proof -
  have ne: "visibleData' c \<noteq> []"
    using assms(2) by auto
  have total: "getHeightByIndexes' c (Num 0) (Some (Num 4)) = Num 50"
    by (simp add: getHeightByIndexes'_def assms(1) jor_def)
  have below: "getHeightByIndexes' c (Num 1) None = Num 40"
    by (simp add: getHeightByIndexes'_def assms(1) jor_def)
  have idx: "getIndexByHeight' c (Num 35) = Num 3"
    by (simp add: getIndexByHeight'_def assms(1) binarySearch_example)
  have rb: "recalculateBranch c = (StartKept, c\<lparr>endIndex' := Num 3\<rparr>)"
    using ne by (simp add: recalculateBranch_def Let_def total below idx assms)
  show ?thesis
    by (simp add: recalculate_def rb markConsistent_def assms idx)
qed

text \<open>The example controller after \<open>startIndex(1)\<close> is such a state, with the end index unset.\<close>

theorem recalculate_start_anchored_example_witness:
  "heightCache' (startIndex exampleController (Num 1)) = [10, 20, 30, 40, 50]
     \<and> length (visibleData' (startIndex exampleController (Num 1))) = 5
     \<and> availableHeight' (startIndex exampleController (Num 1)) = Num 25
     \<and> startIndex' (startIndex exampleController (Num 1)) = Num 1
     \<and> endIndex' (startIndex exampleController (Num 1)) = NaN
     \<and> verticalOffset' (startIndex exampleController (Num 1)) = Num 0
     \<and> fst (recalculateBranch (startIndex exampleController (Num 1))) = StartKept
     \<and> startIndex' (recalculate (startIndex exampleController (Num 1))) = Num 1
     \<and> verticalOffset' (recalculate (startIndex exampleController (Num 1))) = Num 0
     \<and> endIndex' (recalculate (startIndex exampleController (Num 1))) = Num 3"
proof -
  let ?c = "startIndex exampleController (Num 1)"
  have c: "?c = exampleController\<lparr>startIndex' := Num 1, endIndex' := NaN,
                                   consistency' := {POSITION}\<rparr>"
    by (simp add: startIndex_def jne_def invalidate_def exampleController_fields)
  have h: "heightCache' ?c = [10, 20, 30, 40, 50]" "length (visibleData' ?c) = 5"
    "availableHeight' ?c = Num 25" "startIndex' ?c = Num 1" "verticalOffset' ?c = Num 0"
    by (simp_all add: c exampleController_fields)
  have e: "endIndex' ?c = NaN"
    by (simp add: c)
  from recalculate_start_anchored_example [OF h]
  have "fst (recalculateBranch ?c) = StartKept
     \<and> startIndex' (recalculate ?c) = Num 1
     \<and> verticalOffset' (recalculate ?c) = Num 0
     \<and> endIndex' (recalculate ?c) = Num 3"
    by blast
  with h e show ?thesis
    by blast
qed

text \<open>
  Claim C5. When the visible rows are not empty and the available height is at least the
  total height (as \<open>recalculate\<close> computes it: the height of rows 0 to the last), then
  \<open>recalculate\<close> yields start index 0, end index \<open>length - 1\<close> and vertical offset 0,
  whatever the indexes and the offset were before, and a second \<open>recalculate\<close> changes
  nothing.
\<close>

theorem recalculate_fits:
  assumes "visibleData' c \<noteq> []"
    and "jge (availableHeight' c)
             (getHeightByIndexes' c (Num 0) (Some (Num (int (length (heightCache' c)) - 1))))"
  shows "startIndex' (recalculate c) = Num 0
     \<and> endIndex' (recalculate c) = Num (int (length (visibleData' c)) - 1)
     \<and> verticalOffset' (recalculate c) = Num 0
     \<and> recalculate (recalculate c) = recalculate c"
proof -
  let ?d = "recalculate c"
  have fits: "recalculateBranch c =
      (Fits, c\<lparr>startIndex' := Num 0, verticalOffset' := Num 0,
                endIndex' := Num (int (length (visibleData' c)) - 1)\<rparr>)"
    using assms by (simp add: recalculateBranch_def Let_def)
  have d: "?d = c\<lparr>startIndex' := Num 0, verticalOffset' := Num 0,
                endIndex' := Num (int (length (visibleData' c)) - 1),
                positionRecalculated' := True, consistency' := consistency' c - {POSITION}\<rparr>"
    by (simp add: recalculate_def fits markConsistent_def)
  have h1: "visibleData' ?d \<noteq> []"
    using assms(1) by (simp add: d)
  have h2: "jge (availableHeight' ?d)
             (getHeightByIndexes' ?d (Num 0) (Some (Num (int (length (heightCache' ?d)) - 1))))"
    using assms(2) getHeightByIndexes_cache [of ?d c] by (simp add: d)
  have fits2: "recalculateBranch ?d =
      (Fits, ?d\<lparr>startIndex' := Num 0, verticalOffset' := Num 0,
                endIndex' := Num (int (length (visibleData' ?d)) - 1)\<rparr>)"
    using h1 h2 by (simp add: recalculateBranch_def Let_def)
  have "recalculate ?d = ?d"
    unfolding recalculate_def [of ?d] fits2 by (simp add: d markConsistent_def)
  then show ?thesis
    by (simp add: d)
qed

text \<open>The example controller with 50 pixels available shows all five rows.\<close>

theorem recalculate_fits_witness:
  "visibleData' (availableHeight exampleController (Num 50)) \<noteq> []
     \<and> jge (availableHeight' (availableHeight exampleController (Num 50)))
            (Num (last (heightCache' (availableHeight exampleController (Num 50)))))
     \<and> startIndex' (recalculate (availableHeight exampleController (Num 50))) = Num 0
     \<and> endIndex' (recalculate (availableHeight exampleController (Num 50))) = Num 4
     \<and> verticalOffset' (recalculate (availableHeight exampleController (Num 50))) = Num 0
     \<and> recalculate (recalculate (availableHeight exampleController (Num 50)))
         = recalculate (availableHeight exampleController (Num 50))"
proof -
  let ?c = "availableHeight exampleController (Num 50)"
  have c: "?c = exampleController\<lparr>availableHeight' := Num 50, consistency' := {POSITION}\<rparr>"
    by (simp add: availableHeight_def jne_def invalidate_def exampleController_fields)
  have v: "visibleData' ?c \<noteq> []"
    using exampleController_fields(2) by (auto simp: c)
  have l: "length (visibleData' ?c) = 5"
    by (simp add: c exampleController_fields)
  have t: "getHeightByIndexes' ?c (Num 0) (Some (Num (int (length (heightCache' ?c)) - 1)))
             = Num (last (heightCache' ?c))"
    by (rule getHeightByIndexes_total) (simp add: c exampleController_fields)
  have j: "jge (availableHeight' ?c) (Num (last (heightCache' ?c)))"
    by (simp add: c exampleController_fields)
  have h: "jge (availableHeight' ?c)
             (getHeightByIndexes' ?c (Num 0) (Some (Num (int (length (heightCache' ?c)) - 1))))"
    using j by (simp only: t)
  from recalculate_fits [OF v h] l
  have "startIndex' (recalculate ?c) = Num 0
     \<and> endIndex' (recalculate ?c) = Num 4
     \<and> verticalOffset' (recalculate ?c) = Num 0
     \<and> recalculate (recalculate ?c) = recalculate ?c"
    by simp
  with v j show ?thesis
    by blast
qed

text \<open>
  Claim C7. When the visible rows are empty, \<open>recalculate\<close> sets the start index, the end
  index and the vertical offset to 0, whatever they and the available height were before.
  \<open>recalculate\<close> has no failing path: it is a total function on controller states.
\<close>

theorem recalculate_empty:
  "visibleData' c = [] \<Longrightarrow>
     fst (recalculateBranch c) = EmptySet
     \<and> startIndex' (recalculate c) = Num 0 \<and> endIndex' (recalculate c) = Num 0
     \<and> verticalOffset' (recalculate c) = Num 0"
  by (simp add: recalculate_def recalculateBranch_def markConsistent_def)

text \<open>A new controller without a tree, after \<open>verticalOffset(7)\<close> and \<open>startIndex(3)\<close>.\<close>

theorem recalculate_empty_witness:
  "visibleData' (startIndex (verticalOffset (Controller False) (Num 7)) (Num 3)) = []
     \<and> startIndex' (recalculate (startIndex (verticalOffset (Controller False) (Num 7)) (Num 3))) = Num 0
     \<and> endIndex' (recalculate (startIndex (verticalOffset (Controller False) (Num 7)) (Num 3))) = Num 0
     \<and> verticalOffset' (recalculate (startIndex (verticalOffset (Controller False) (Num 7)) (Num 3)))
         = Num 0"
proof -
  have v: "visibleData' (startIndex (verticalOffset (Controller False) (Num 7)) (Num 3)) = []"
    by (simp add: startIndex_def verticalOffset_def invalidate_def Controller_def jne_def)
  from recalculate_empty [OF v] v show ?thesis
    by blast
qed

lemma recalculateBranch_numeric:
  "\<not> isNaN (startIndex' (snd (recalculateBranch c)))
   \<and> \<not> isNaN (endIndex' (snd (recalculateBranch c)))"
proof (cases "visibleData' c = []")
  case True
  then show ?thesis
    by (simp add: recalculateBranch_def)
next
  case ne: False
  show ?thesis
  proof (cases "jge (availableHeight' c)
       (getHeightByIndexes' c (Num 0) (Some (Num (int (length (heightCache' c)) - 1))))")
    case True
    with ne show ?thesis
      by (simp add: recalculateBranch_def)
  next
    case nf: False
    show ?thesis
    proof (cases "isNaN (startIndex' c)")
      case s: True
      show ?thesis
      proof (cases "isNaN (endIndex' c)")
        case True
        with ne nf s show ?thesis
          by (simp add: recalculateBranch_def Let_def)
      next
        case False
        with ne nf s show ?thesis
          by (simp add: recalculateBranch_def Let_def)
      qed
    next
      case False
      with ne nf show ?thesis
        by (simp add: recalculateBranch_def Let_def)
    qed
  qed
qed

lemma recalculateBranch_start_set:
  assumes "\<not> isNaN (startIndex' d)"
  shows "fst (recalculateBranch d) \<in> {EmptySet, Fits, StartGoingFromEnd, StartKept}"
proof (cases "visibleData' d = []")
  case True
  then show ?thesis
    by (simp add: recalculateBranch_def)
next
  case ne: False
  show ?thesis
  proof (cases "jge (availableHeight' d)
       (getHeightByIndexes' d (Num 0) (Some (Num (int (length (heightCache' d)) - 1))))")
    case True
    with ne show ?thesis
      by (simp add: recalculateBranch_def)
  next
    case False
    with ne assms show ?thesis
      by (simp add: recalculateBranch_def Let_def)
  qed
qed

text \<open>
  Claim C9. After \<open>recalculate\<close>, from any state, neither the start index nor the end
  index is \<open>NaN\<close>. Hence the next \<open>recalculate\<close> never takes a branch for "end index is
  set": outside the empty and the fitting case it takes one of the two branches for a set
  start index. This holds when no index setter was called in between, also if the
  available height, the vertical offset, the visible rows and the height cache changed.
\<close>

theorem recalculate_indexes_numeric:
  "\<not> isNaN (startIndex' (recalculate c)) \<and> \<not> isNaN (endIndex' (recalculate c))
   \<and> fst (recalculateBranch ((recalculate c)\<lparr>availableHeight' := a, verticalOffset' := v,
         visibleData' := rows, heightCache' := cache\<rparr>))
       \<in> {EmptySet, Fits, StartGoingFromEnd, StartKept}"
proof -
  have n: "\<not> isNaN (startIndex' (recalculate c))" "\<not> isNaN (endIndex' (recalculate c))"
    using recalculateBranch_numeric [of c] by (simp_all add: recalculate_def markConsistent_def)
  have "\<not> isNaN (startIndex' ((recalculate c)\<lparr>availableHeight' := a, verticalOffset' := v,
         visibleData' := rows, heightCache' := cache\<rparr>))"
    using n(1) by simp
  from recalculateBranch_start_set [OF this] n show ?thesis
    by simp
qed

section \<open>Settings\<close>

text \<open>
  Claim C4, as the source has it. For a number \<open>k\<close> that is not \<open>NaN\<close> and differs from
  the current start index, the start index setter stores \<open>k\<close>, sets the end index to
  \<open>NaN\<close> and marks POSITION dirty; likewise the end index setter for a \<open>k\<close> that differs
  from the current end index. When \<open>k\<close> is the current value of the index, the setter
  changes nothing.
\<close>

theorem index_setters_exclusive:
  "(startIndex' c \<noteq> Num k \<longrightarrow>
      endIndex' (startIndex c (Num k)) = NaN \<and> startIndex' (startIndex c (Num k)) = Num k
      \<and> POSITION \<in> consistency' (startIndex c (Num k)))
   \<and> (endIndex' c \<noteq> Num k \<longrightarrow>
      startIndex' (endIndex c (Num k)) = NaN \<and> endIndex' (endIndex c (Num k)) = Num k
      \<and> POSITION \<in> consistency' (endIndex c (Num k)))
   \<and> (startIndex' c = Num k \<longrightarrow> startIndex c (Num k) = c)
   \<and> (endIndex' c = Num k \<longrightarrow> endIndex c (Num k) = c)"
  by (cases "startIndex' c"; cases "endIndex' c")
     (simp_all add: startIndex_def endIndex_def invalidate_def jne_def)

text \<open>
  The example controller has start index 0 and end index 2: setting the start index to 1
  unsets the end index, setting the end index to 4 unsets the start index, and setting
  an index to the value it has changes nothing.
\<close>

theorem index_setters_exclusive_witness:
  "startIndex' exampleController \<noteq> Num 1
   \<and> endIndex' (startIndex exampleController (Num 1)) = NaN
   \<and> POSITION \<in> consistency' (startIndex exampleController (Num 1))
   \<and> endIndex' exampleController \<noteq> Num 4
   \<and> startIndex' (endIndex exampleController (Num 4)) = NaN
   \<and> POSITION \<in> consistency' (endIndex exampleController (Num 4))
   \<and> startIndex' exampleController = Num 0
   \<and> startIndex exampleController (Num 0) = exampleController
   \<and> endIndex' exampleController = Num 2
   \<and> endIndex exampleController (Num 2) = exampleController"
  using index_setters_exclusive [of exampleController 1]
    index_setters_exclusive [of exampleController 4]
    index_setters_exclusive [of exampleController 0]
    index_setters_exclusive [of exampleController 2]
  by (simp add: exampleController_fields)

text \<open>
  Setting the start index of the example controller to 0, the value it has, leaves the end
  index at 2 and POSITION clean.
\<close>

theorem startIndex_same_value_counterexample:
  "\<not> isNaN (endIndex' (startIndex exampleController (Num 0)))
   \<and> POSITION \<notin> consistency' (startIndex exampleController (Num 0))"
  by (simp add: startIndex_def jne_def exampleController_fields)

text \<open>
  Claim C10. The start index setter and the end index setter called with \<open>NaN\<close> return
  the controller unchanged: the index, the opposite index and the consistency states are
  as before. Hence a setter never unsets its own index: after the call the index is
  \<open>NaN\<close> only if it was \<open>NaN\<close> before and the argument was \<open>NaN\<close>.
\<close>

theorem index_setters_NaN_noop:
  "startIndex c NaN = c \<and> endIndex c NaN = c
   \<and> isNaN (startIndex' (startIndex c v)) = (isNaN (startIndex' c) \<and> isNaN v)
   \<and> isNaN (endIndex' (endIndex c v)) = (isNaN (endIndex' c) \<and> isNaN v)"
  by (cases v; cases "startIndex' c"; cases "endIndex' c")
     (simp_all add: startIndex_def endIndex_def invalidate_def jne_def)


section \<open>Double precision addition\<close>

text \<open>
  For an argument that is not negative, the rounded value is not negative, is a double,
  and is not below any double that the argument has reached.
\<close>

lemma bitLength_bounds:
  "0 < x \<Longrightarrow> 0 < bitLength x \<and> 2 ^ (bitLength x - 1) \<le> x \<and> x < 2 ^ bitLength x"
proof (induction x rule: bitLength.induct)
  case (1 x)
  show ?case
  proof (cases "x div 2 \<le> 0")
    case True
    with "1.prems" have x: "x = 1" by linarith
    have "bitLength (1 div 2) = 0"
      by (simp add: bitLength.simps [of 0])
    then have "bitLength 1 = Suc 0"
      by (simp add: bitLength.simps [of 1])
    with x show ?thesis by simp
  next
    case False
    then have h: "0 < x div 2" by simp
    have nx: "\<not> x \<le> 0" using "1.prems" by simp
    from "1.IH" [OF nx h]
    have ih: "0 < bitLength (x div 2)" "2 ^ (bitLength (x div 2) - 1) \<le> x div 2"
      "x div 2 < 2 ^ bitLength (x div 2)"
      by simp_all
    have b: "bitLength x = Suc (bitLength (x div 2))"
      using nx by (simp add: bitLength.simps [of x])
    obtain k where k: "bitLength (x div 2) = Suc k"
      using ih(1) by (cases "bitLength (x div 2)") simp_all
    from ih(2) k have lo: "2 * 2 ^ k \<le> x" by simp
    from ih(3) k have hi: "x < 2 * (2 * 2 ^ k)" by simp
    show ?thesis
      using lo hi by (simp add: b k)
  qed
qed

lemma bitLength_unique:
  assumes "2 ^ k \<le> x" and "x < 2 ^ Suc k"
  shows "bitLength x = Suc k"
proof -
  have pos: "0 < x"
    using assms(1) by (smt (verit) zero_less_power)
  from bitLength_bounds [OF pos]
  have b: "0 < bitLength x" "(2::int) ^ (bitLength x - 1) \<le> x" "x < 2 ^ bitLength x"
    by simp_all
  have "(2::int) ^ k < 2 ^ bitLength x"
    using assms(1) b(3) by linarith
  then have 1: "k < bitLength x"
    by (simp add: power_strict_increasing_iff)
  have "(2::int) ^ (bitLength x - 1) < 2 ^ Suc k"
    using assms(2) b(2) by linarith
  then have 2: "bitLength x - 1 < Suc k"
    using power_strict_increasing_iff [of "2::int" "bitLength x - 1" "Suc k"] by simp
  from 1 2 show ?thesis by linarith
qed

lemma multiple_le_floor:
  fixes u c y :: int
  assumes "0 < u" and "u dvd c" and "c \<le> y"
  shows "c \<le> (y div u) * u"
proof -
  from assms(2) obtain k where k: "c = k * u"
    by (auto simp: dvd_def mult.commute)
  have "c div u \<le> y div u"
    using assms(1,3) by (simp add: zdiv_mono1)
  then have "k \<le> y div u"
    using assms(1) by (simp add: k)
  then show ?thesis
    using assms(1) by (simp add: k mult_right_mono)
qed



lemma div_lt_int:
  fixes x u n :: int
  assumes "0 < u" and "x < n * u"
  shows "x div u < n"
proof -
  have "x = x div u * u + x mod u" by simp
  moreover have "0 \<le> x mod u" using assms(1) by simp
  ultimately have "x div u * u \<le> x" by linarith
  with assms(2) have "x div u * u < n * u" by linarith
  then show ?thesis
    using assms(1) by (simp add: mult_less_cancel_right)
qed

lemma div_ge_int:
  fixes x u n :: int
  assumes "0 < u" and "n * u \<le> x"
  shows "n \<le> x div u"
proof -
  from zdiv_mono1 [OF assms(2) assms(1)] show ?thesis
    using assms(1) by simp
qed

lemma power2_less_exp: "(2::int) ^ n < 2 ^ k \<Longrightarrow> n < k"
  by (rule power_less_imp_less_exp [of "2::int"]) simp_all

lemma power2_less_pos: "2 ^ n < (x::int) \<Longrightarrow> 0 < x"
  by (rule less_trans [of _ "2 ^ n"]) simp_all


lemma bitLength_large:
  assumes "2 ^ 53 < x"
  shows "\<exists>e. bitLength x = 53 + e \<and> 2 ^ 52 * 2 ^ e \<le> x \<and> x < 2 ^ 53 * 2 ^ e"
proof -
  have pos: "0 < x" using assms by (rule power2_less_pos)
  from bitLength_bounds [OF pos]
  have b: "0 < bitLength x" "(2::int) ^ (bitLength x - 1) \<le> x" "x < 2 ^ bitLength x"
    by simp_all
  from assms b(3) have "(2::int) ^ 53 < 2 ^ bitLength x"
    by (rule less_trans)
  then have "53 < bitLength x" by (rule power2_less_exp)
  then obtain e where e: "bitLength x = 53 + e"
    by (metis less_imp_add_positive)
  have "bitLength x - 1 = 52 + e" by (simp add: e)
  with b(2) have "(2::int) ^ (52 + e) \<le> x" by simp
  then have lo: "(2::int) ^ 52 * 2 ^ e \<le> x" by (simp only: power_add)
  from b(3) have "x < 2 ^ (53 + e)" by (simp only: e)
  then have hi: "x < 2 ^ 53 * 2 ^ e" by (simp only: power_add)
  from e lo hi show ?thesis by blast
qed

lemma roundToDouble_large:
  assumes "2 ^ 53 < x"
  shows "\<exists>m. roundToDouble x = m * 2 ^ (bitLength x - 53)
     \<and> x div 2 ^ (bitLength x - 53) \<le> m \<and> m \<le> x div 2 ^ (bitLength x - 53) + 1"
proof -
  have pos: "0 < x" using assms by (rule power2_less_pos)
  then have a: "\<bar>x\<bar> = x" "sgn x = 1" by simp_all
  have n: "\<not> \<bar>x\<bar> \<le> 2 ^ 53" using assms a by simp
  show ?thesis
    unfolding roundToDouble_def Let_def a using n a by auto
qed

text \<open>The shape of a rounded large number: a significand times a power of two.\<close>

lemma roundToDouble_shape:
  assumes "2 ^ 53 < x"
  shows "\<exists>e m. bitLength x = 53 + e \<and> roundToDouble x = m * 2 ^ e
     \<and> x div 2 ^ e \<le> m \<and> m \<le> x div 2 ^ e + 1
     \<and> 2 ^ 52 \<le> x div 2 ^ e \<and> x div 2 ^ e < 2 ^ 53
     \<and> 2 ^ 52 * 2 ^ e \<le> x \<and> x < 2 ^ 53 * 2 ^ e"
proof -
  from bitLength_large [OF assms] obtain e where
    e: "bitLength x = 53 + e" and lo: "2 ^ 52 * 2 ^ e \<le> x" and hi: "x < 2 ^ 53 * 2 ^ e"
    by blast
  have u: "(0::int) < 2 ^ e" by simp
  from roundToDouble_large [OF assms] obtain m where
    m: "roundToDouble x = m * 2 ^ e" "x div 2 ^ e \<le> m" "m \<le> x div 2 ^ e + 1"
    by (auto simp: e)
  have q1: "2 ^ 52 \<le> x div 2 ^ e" using u lo by (rule div_ge_int)
  have q2: "x div 2 ^ e < 2 ^ 53" using u hi by (rule div_lt_int)
  from e m q1 q2 lo hi show ?thesis by blast
qed

lemma roundToDouble_nonneg:
  assumes "0 \<le> x"
  shows "0 \<le> roundToDouble x"
proof (cases "x \<le> 2 ^ 53")
  case True
  with assms show ?thesis by (simp add: roundToDouble_def)
next
  case False
  then have l: "2 ^ 53 < x" by simp
  from roundToDouble_shape [OF l] obtain e m where
    m: "roundToDouble x = m * 2 ^ e" "x div 2 ^ e \<le> m" "2 ^ 52 \<le> x div 2 ^ e"
    by blast
  have "(0::int) \<le> 2 ^ 52" by simp
  with m(2,3) have "0 \<le> m" by linarith
  then show ?thesis by (simp add: m(1))
qed

lemma roundToDouble_ge:
  assumes "0 \<le> c" and "isDouble c" and "c \<le> y"
  shows "c \<le> roundToDouble y"
proof (cases "y \<le> 2 ^ 53")
  case True
  with assms have "\<bar>y\<bar> \<le> 2 ^ 53" by simp
  then show ?thesis using assms(3) by (simp add: roundToDouble_def)
next
  case False
  then have l: "2 ^ 53 < y" by simp
  from roundToDouble_shape [OF l] obtain e m where
    e: "bitLength y = 53 + e" and m: "roundToDouble y = m * 2 ^ e" "y div 2 ^ e \<le> m"
    and lo: "2 ^ 52 * 2 ^ e \<le> y" and hi: "y < 2 ^ 53 * 2 ^ e"
    by blast
  have u: "(0::int) < 2 ^ e" by simp
  have floor: "(y div 2 ^ e) * 2 ^ e \<le> roundToDouble y"
    using m u by (simp add: mult_right_mono)
  have "c \<le> (y div 2 ^ e) * 2 ^ e"
  proof (cases "c \<le> 2 ^ 52 * 2 ^ e")
    case True
    have "(2::int) ^ e dvd 2 ^ 52 * 2 ^ e" by simp
    from multiple_le_floor [OF u this lo] True show ?thesis by linarith
  next
    case big: False
    then have "(2::int) ^ 52 * 2 ^ e \<le> c" by simp
    then have c1: "(2::int) ^ (52 + e) \<le> c" by (simp only: power_add)
    from assms(3) hi have "c < 2 ^ 53 * 2 ^ e" by linarith
    then have "c < 2 ^ (53 + e)" by (simp only: power_add)
    then have c2: "c < 2 ^ Suc (52 + e)" by simp
    from bitLength_unique [OF c1 c2] have bl: "bitLength c = 53 + e" by simp
    have "(2::int) ^ 52 * 2 ^ 0 \<le> 2 ^ 52 * 2 ^ e"
      by (intro mult_left_mono power_increasing) simp_all
    then have "(2::int) ^ 52 \<le> 2 ^ 52 * 2 ^ e" by simp
    have dv: "(2::int) ^ e dvd c"
    proof (cases e)
      case 0
      then show ?thesis by simp
    next
      case (Suc e')
      have "(2::int) ^ 53 = 2 ^ 52 * 2 ^ 1" by simp
      also have "\<dots> \<le> 2 ^ 52 * 2 ^ e"
        by (intro mult_left_mono power_increasing) (simp_all add: Suc)
      finally have "2 ^ 53 < c" using big by linarith
      with assms(1) have "\<not> \<bar>c\<bar> \<le> 2 ^ 53" by simp
      with assms(1,2) show ?thesis by (simp add: isDouble_def bl)
    qed
    from multiple_le_floor [OF u dv assms(3)] show ?thesis .
  qed
  with floor show ?thesis by linarith
qed

lemma roundToDouble_isDouble:
  assumes "0 \<le> x"
  shows "isDouble (roundToDouble x)"
proof (cases "x \<le> 2 ^ 53")
  case True
  with assms have "\<bar>x\<bar> \<le> 2 ^ 53" by simp
  then show ?thesis by (simp add: roundToDouble_def isDouble_def)
next
  case False
  then have l: "2 ^ 53 < x" by simp
  from roundToDouble_shape [OF l] obtain e m where
    m: "roundToDouble x = m * 2 ^ e" "x div 2 ^ e \<le> m" "m \<le> x div 2 ^ e + 1"
    and q: "2 ^ 52 \<le> x div 2 ^ e" "x div 2 ^ e < 2 ^ 53"
    by blast
  have u: "(0::int) < 2 ^ e" by simp
  have m1: "2 ^ 52 \<le> m" using m(2) q(1) by linarith
  have m2: "m \<le> 2 ^ 53" using m(3) q(2) by linarith
  have mpos: "0 < m" using m1 by (smt (verit) zero_less_power)
  have vpos: "0 \<le> m * 2 ^ e" using mpos by simp
  show ?thesis
  proof (cases "m = 2 ^ 53")
    case True
    have v: "m * 2 ^ e = 2 ^ (53 + e)" by (simp only: True power_add)
    have "(2::int) ^ (53 + e) \<le> m * 2 ^ e" by (simp only: v)
    moreover have "m * 2 ^ e < 2 ^ Suc (53 + e)" by (simp add: v)
    ultimately have "bitLength (m * 2 ^ e) = Suc (53 + e)" by (rule bitLength_unique)
    moreover have "(2::int) ^ Suc e dvd 2 ^ (53 + e)"
      by (rule le_imp_power_dvd) simp
    ultimately show ?thesis
      using vpos by (simp add: isDouble_def m(1) v)
  next
    case False
    with m2 have lt: "m < 2 ^ 53" by simp
    from m1 have "2 ^ 52 * 2 ^ e \<le> m * 2 ^ e" using u by (simp add: mult_right_mono)
    then have c1: "(2::int) ^ (52 + e) \<le> m * 2 ^ e" by (simp only: power_add)
    from lt have "m * 2 ^ e < 2 ^ 53 * 2 ^ e" using u by (simp add: mult_strict_right_mono)
    then have "m * 2 ^ e < 2 ^ (53 + e)" by (simp only: power_add)
    then have c2: "m * 2 ^ e < 2 ^ Suc (52 + e)" by simp
    from bitLength_unique [OF c1 c2] have "bitLength (m * 2 ^ e) = 53 + e" by simp
    then show ?thesis
      using vpos by (simp add: isDouble_def m(1))
  qed
qed


section \<open>Visible data\<close>

lemma rd_small [simp]: "\<bar>x\<bar> \<le> 2 ^ 53 \<Longrightarrow> roundToDouble x = x"
  by (simp add: roundToDouble_def)

lemma getItemHeight_cases:
  "getItemHeight G it =
     (case ROW_HEIGHT (get it) of
        Number (Num h) \<Rightarrow> if h = 0 then DEFAULT_ROW_HEIGHT G else h
      | _ \<Rightarrow> DEFAULT_ROW_HEIGHT G)"
  by (simp add: getItemHeight_def jor_def split: jsval.splits jsnum.splits)

lemma visibleLoop_visibleData:
  "visibleData' (visibleLoop G its c h) = visibleData' c @ its"
  by (induction its arbitrary: c h) (simp_all add: Let_def)

lemma length_spec_cumulative [simp]: "length (spec_cumulative G h its) = length its"
  by (induction its arbitrary: h) simp_all

lemma visibleLoop_length:
  "length (heightCache' (visibleLoop G its c h)) = length (heightCache' c) + length its"
  by (induction its arbitrary: c h) (simp_all add: Let_def)

lemma visibleLoop_heightCache:
  "\<forall>it\<in>set its. \<bar>getItemHeight G it + ROW_SPACE G\<bar> \<le> 2 ^ 53 \<Longrightarrow>
   \<forall>x\<in>set (spec_cumulative G h its). \<bar>x\<bar> \<le> 2 ^ 53 \<Longrightarrow>
     heightCache' (visibleLoop G its c h) = heightCache' c @ spec_cumulative G h its"
  by (induction its arbitrary: c h) (simp_all add: Let_def dadd_def)



lemma spec_cumulative_nth:
  "i < length its \<Longrightarrow>
     spec_cumulative G h its ! i - (if i = 0 then h else spec_cumulative G h its ! (i - 1))
       = getItemHeight G (its ! i) + ROW_SPACE G"
proof (induction its arbitrary: h i)
  case Nil
  then show ?case
    by simp
next
  case (Cons it its)
  show ?case
  proof (cases i)
    case 0
    then show ?thesis
      by simp
  next
    case (Suc j)
    with Cons.prems have j: "j < length its"
      by simp
    from Cons.IH [OF j, of "h + (getItemHeight G it + ROW_SPACE G)"] Suc
    show ?thesis
      by (cases j) simp_all
  qed
qed

lemma visibleLoop_sorted:
  assumes "\<forall>it\<in>set its. 0 \<le> getItemHeight G it + ROW_SPACE G"
    and "0 \<le> h" and "isDouble h"
    and "sorted (heightCache' c)" and "\<forall>x\<in>set (heightCache' c). x \<le> h"
  shows "sorted (heightCache' (visibleLoop G its c h))"
  using assms
proof (induction its arbitrary: c h)
  case Nil
  then show ?case by simp
next
  case (Cons it its)
  define s where "s = dadd (getItemHeight G it) (ROW_SPACE G)"
  define h1 where "h1 = dadd h s"
  define c2 where "c2 = c\<lparr>visibleData' := visibleData' c @ [it], heightCache' := heightCache' c @ [h1]\<rparr>"
  have step: "0 \<le> getItemHeight G it + ROW_SPACE G"
    and rest: "\<forall>it\<in>set its. 0 \<le> getItemHeight G it + ROW_SPACE G"
    using Cons.prems(1) by simp_all
  have s0: "0 \<le> s"
    unfolding s_def dadd_def using step by (rule roundToDouble_nonneg)
  have le: "h \<le> h1"
    unfolding h1_def dadd_def using Cons.prems(2,3) s0 by (intro roundToDouble_ge) simp_all
  have h1: "0 \<le> h1" "isDouble h1"
    unfolding h1_def dadd_def using Cons.prems(2) s0
    by (simp_all add: roundToDouble_nonneg roundToDouble_isDouble)
  have srt: "sorted (heightCache' c2)"
    using Cons.prems(4,5) le by (auto simp: c2_def sorted_append)
  have bnd: "\<forall>x\<in>set (heightCache' c2). x \<le> h1"
    using Cons.prems(5) le by (auto simp: c2_def)
  have "visibleLoop G (it # its) c h = visibleLoop G its c2 h1"
    by (simp add: Let_def c2_def h1_def s_def)
  with Cons.IH [OF rest h1 srt bnd] show ?case by simp
qed

lemma isDouble_0: "isDouble 0"
  by (simp add: isDouble_def)

lemma exampleRows_exact: "spec_exact exampleConsts (replicate 5 (exampleRow 10))"
  by code_simp

text \<open>
  Claim C6, as the source has it. When a tree is set, rebuilding the visible data succeeds,
  the visible rows are the items the traverser yields and the height cache is as long as
  the visible rows. The height of a row is its row height override when that is a number
  other than 0 and \<open>NaN\<close>, and the default otherwise. When every row height plus row
  spacing and every cumulative height is an integer of magnitude at most \<open>2^53\<close>, so
  that the double precision additions are exact, the difference between entry \<open>i\<close> and
  entry \<open>i - 1\<close> of the cache (0 for \<open>i = 0\<close>) is the height of row \<open>i\<close> plus the row
  spacing, for every index \<open>i\<close>. When no row has a negative height plus row spacing, the
  cache is non-decreasing. (Beyond \<open>2^53\<close> an addition rounds and a difference can be 0;
  the source accepts negative overrides, and the cache decreases at such a row.)
\<close>

theorem getVisibleData_cumulative:
  assumes "data' c = Some roots"
  shows "\<exists>c'. getVisibleData' G c = Inr c'
     \<and> visibleData' c' = traverser traverseChildrenCondition' roots
     \<and> length (heightCache' c') = length (visibleData' c')
     \<and> (\<forall>i<length (visibleData' c').
           getItemHeight G (visibleData' c' ! i)
             = (case ROW_HEIGHT (get (visibleData' c' ! i)) of
                  Number (Num h) \<Rightarrow> if h = 0 then DEFAULT_ROW_HEIGHT G else h
                | _ \<Rightarrow> DEFAULT_ROW_HEIGHT G))
     \<and> (spec_exact G (visibleData' c') \<longrightarrow>
           (\<forall>i<length (visibleData' c').
              heightCache' c' ! i - (if i = 0 then 0 else heightCache' c' ! (i - 1))
                = getItemHeight G (visibleData' c' ! i) + ROW_SPACE G))
     \<and> ((\<forall>it\<in>set (visibleData' c'). 0 \<le> getItemHeight G it + ROW_SPACE G)
           \<longrightarrow> sorted (heightCache' c'))"
proof -
  let ?rows = "traverser traverseChildrenCondition' roots"
  let ?c0 = "c\<lparr>visibleData' := [], heightCache' := []\<rparr>"
  let ?c' = "visibleLoop G ?rows ?c0 0"
  have r: "getVisibleData' G c = Inr ?c'"
    using assms by (simp add: getVisibleData'_def)
  have v: "visibleData' ?c' = ?rows"
    by (simp add: visibleLoop_visibleData)
  have len: "length (heightCache' ?c') = length (visibleData' ?c')"
    by (simp add: v visibleLoop_length)
  have rh: "\<forall>i<length (visibleData' ?c').
           getItemHeight G (visibleData' ?c' ! i)
             = (case ROW_HEIGHT (get (visibleData' ?c' ! i)) of
                  Number (Num h) \<Rightarrow> if h = 0 then DEFAULT_ROW_HEIGHT G else h
                | _ \<Rightarrow> DEFAULT_ROW_HEIGHT G)"
    by (simp add: getItemHeight_cases)
  have diff: "spec_exact G (visibleData' ?c') \<longrightarrow>
           (\<forall>i<length (visibleData' ?c').
              heightCache' ?c' ! i - (if i = 0 then 0 else heightCache' ?c' ! (i - 1))
                = getItemHeight G (visibleData' ?c' ! i) + ROW_SPACE G)"
  proof
    assume "spec_exact G (visibleData' ?c')"
    then have e: "\<forall>it\<in>set ?rows. \<bar>getItemHeight G it + ROW_SPACE G\<bar> \<le> 2 ^ 53"
      "\<forall>x\<in>set (spec_cumulative G 0 ?rows). \<bar>x\<bar> \<le> 2 ^ 53"
      unfolding v spec_exact_def by blast+
    have hc: "heightCache' ?c' = spec_cumulative G 0 ?rows"
      using visibleLoop_heightCache [OF e, of ?c0] by simp
    show "\<forall>i<length (visibleData' ?c').
              heightCache' ?c' ! i - (if i = 0 then 0 else heightCache' ?c' ! (i - 1))
                = getItemHeight G (visibleData' ?c' ! i) + ROW_SPACE G"
      unfolding v hc using spec_cumulative_nth [of _ ?rows G 0] by blast
  qed
  have srt: "(\<forall>it\<in>set (visibleData' ?c'). 0 \<le> getItemHeight G it + ROW_SPACE G)
           \<longrightarrow> sorted (heightCache' ?c')"
  proof
    assume "\<forall>it\<in>set (visibleData' ?c'). 0 \<le> getItemHeight G it + ROW_SPACE G"
    then have n: "\<forall>it\<in>set ?rows. 0 \<le> getItemHeight G it + ROW_SPACE G"
      unfolding v .
    show "sorted (heightCache' ?c')"
      by (rule visibleLoop_sorted [OF n _ isDouble_0]) simp_all
  qed
  from r v len rh diff srt show ?thesis
    by blast
qed

text \<open>
  The tree of five rows of height 10: all rows are visible, the second entry of the cache
  exceeds the first by 10, and the cache is sorted.
\<close>

theorem getVisibleData_cumulative_witness:
  "data' (data (Controller False) (replicate 5 (exampleRow 10)))
      = Some (replicate 5 (exampleRow 10))
   \<and> visibleData' (projr (getVisibleData' exampleConsts
        (data (Controller False) (replicate 5 (exampleRow 10))))) = replicate 5 (exampleRow 10)
   \<and> length (heightCache' (projr (getVisibleData' exampleConsts
        (data (Controller False) (replicate 5 (exampleRow 10)))))) = 5
   \<and> getItemHeight exampleConsts (replicate 5 (exampleRow 10) ! 1) = 10
   \<and> heightCache' (projr (getVisibleData' exampleConsts
        (data (Controller False) (replicate 5 (exampleRow 10))))) ! 1
       - heightCache' (projr (getVisibleData' exampleConsts
        (data (Controller False) (replicate 5 (exampleRow 10))))) ! 0 = 10
   \<and> sorted (heightCache' (projr (getVisibleData' exampleConsts
        (data (Controller False) (replicate 5 (exampleRow 10))))))"
proof -
  let ?c = "data (Controller False) (replicate 5 (exampleRow 10))"
  let ?rows = "replicate 5 (exampleRow 10)"
  have d: "data' ?c = Some ?rows"
    by (simp add: data_def invalidate_def Controller_def)
  have t: "traverser traverseChildrenCondition' ?rows = ?rows"
    by (simp add: traverser_def exampleRow_def traverseChildrenCondition'_def numeral_eq_Suc)
  have g: "getItemHeight exampleConsts (exampleRow 10) = 10"
    by (simp add: getItemHeight_def exampleRow_def jor_def)
  have sp: "ROW_SPACE exampleConsts = 0"
    by (simp add: exampleConsts_def)
  from getVisibleData_cumulative [OF d, of exampleConsts] obtain c' where
    r: "getVisibleData' exampleConsts ?c = Inr c'"
    and v: "visibleData' c' = traverser traverseChildrenCondition' ?rows"
    and l: "length (heightCache' c') = length (visibleData' c')"
    and h: "\<forall>i<length (visibleData' c').
              getItemHeight exampleConsts (visibleData' c' ! i)
                = (case ROW_HEIGHT (get (visibleData' c' ! i)) of
                     Number (Num h) \<Rightarrow> if h = 0 then DEFAULT_ROW_HEIGHT exampleConsts else h
                   | _ \<Rightarrow> DEFAULT_ROW_HEIGHT exampleConsts)"
    and e: "spec_exact exampleConsts (visibleData' c') \<longrightarrow>
           (\<forall>i<length (visibleData' c').
              heightCache' c' ! i - (if i = 0 then 0 else heightCache' c' ! (i - 1))
                = getItemHeight exampleConsts (visibleData' c' ! i) + ROW_SPACE exampleConsts)"
    and s: "(\<forall>it\<in>set (visibleData' c').
               0 \<le> getItemHeight exampleConsts it + ROW_SPACE exampleConsts)
           \<longrightarrow> sorted (heightCache' c')"
    by blast
  have p: "projr (getVisibleData' exampleConsts ?c) = c'"
    by (simp add: r)
  have rows: "visibleData' c' = ?rows"
    by (simp only: v t)
  have "spec_exact exampleConsts (visibleData' c')"
    unfolding rows by (rule exampleRows_exact)
  with e have "(1::nat) < length (visibleData' c') \<longrightarrow>
      heightCache' c' ! 1 - (if (1::nat) = 0 then 0 else heightCache' c' ! (1 - 1))
        = getItemHeight exampleConsts (visibleData' c' ! 1) + ROW_SPACE exampleConsts"
    by blast
  then have diff: "heightCache' c' ! 1 - heightCache' c' ! 0 = 10"
    by (simp add: rows g sp)
  have g1: "getItemHeight exampleConsts (?rows ! 1) = 10"
    by (simp add: g)
  have "\<forall>it\<in>set (visibleData' c').
          0 \<le> getItemHeight exampleConsts it + ROW_SPACE exampleConsts"
    by (simp add: rows g sp)
  with s have srt: "sorted (heightCache' c')"
    by blast
  have len: "length (heightCache' c') = 5"
    by (simp add: l rows)
  from d rows len g1 diff srt show ?thesis
    unfolding p by blast
qed

text \<open>
  Two rows with the row height overrides 10 and \<open>-50\<close> (row spacing 0): the cache is
  \<open>[10, -40]\<close>, which decreases. Two rows with the overrides \<open>2^53\<close> and 1: the cache is
  \<open>[2^53, 2^53]\<close>, so the second difference is 0 and not the row height 1.
\<close>

theorem getVisibleData_negative_height_counterexample:
  "heightCache' (projr (getVisibleData' exampleConsts
       (data (Controller False) [exampleRow 10, exampleRow (- 50)]))) = [10, - 40]
   \<and> \<not> sorted (heightCache' (projr (getVisibleData' exampleConsts
       (data (Controller False) [exampleRow 10, exampleRow (- 50)]))))
   \<and> heightCache' (projr (getVisibleData' exampleConsts
       (data (Controller False) [exampleRow (2 ^ 53), exampleRow 1]))) = [2 ^ 53, 2 ^ 53]
   \<and> heightCache' (projr (getVisibleData' exampleConsts
       (data (Controller False) [exampleRow (2 ^ 53), exampleRow 1]))) ! 1
     - heightCache' (projr (getVisibleData' exampleConsts
       (data (Controller False) [exampleRow (2 ^ 53), exampleRow 1]))) ! 0 = 0
   \<and> getItemHeight exampleConsts (exampleRow 1) + ROW_SPACE exampleConsts = 1"
  by code_simp

section \<open>Linearization\<close>

lemma checkDate_keeps [simp]:
  "periodsMap' (checkDate' c d) = periodsMap' c"
  "isResourceChart' (checkDate' c d) = isResourceChart' c"
  "data' (checkDate' c d) = data' c"
  by (simp_all add: checkDate'_def Let_def split: jsval.splits jsnum.splits)

lemma periodsLoop_keeps [simp]:
  "isResourceChart' (periodsLoop ps c) = isResourceChart' c"
  "data' (periodsLoop ps c) = data' c"
  by (induction ps arbitrary: c) (simp_all add: Let_def)

text \<open>
  The loop over the periods of one item never overwrites a key: a key that is present
  (or inherited) keeps its value, any other key gets the first period of the list with
  that id.
\<close>

lemma periodsLoop_map:
  "periodsMap' (periodsLoop ps c) k =
     (if periodsMap' c k \<noteq> None \<or> inheritedProperty k then periodsMap' c k
      else find (\<lambda>p. ID p = k) ps)"
proof (induction ps arbitrary: c)
  case Nil
  then show ?case
    by auto
next
  case (Cons p ps)
  show ?case
    by (simp add: Let_def Cons.IH) auto
qed

lemma linearizeBody_keeps [simp]:
  "isResourceChart' (snd (linearizeBody d i it c)) = isResourceChart' c"
  "data' (snd (linearizeBody d i it c)) = data' c"
  by (simp_all add: linearizeBody_def Let_def split: option.splits)

text \<open>In resource mode the body of the loop replaces the map by the map of the item.\<close>

lemma linearizeBody_map:
  "isResourceChart' c \<Longrightarrow>
     periodsMap' (snd (linearizeBody d i it c)) = spec_firstPeriod it"
  by (rule ext) (simp add: linearizeBody_def Let_def spec_firstPeriod_def periodsLoop_map
      split: option.splits)

lemma traverse_not_Nil [simp]: "traverse cond it \<noteq> []"
  by (cases it) simp

lemma traverser_Nil_iff [simp]: "traverser cond its = [] \<longleftrightarrow> its = []"
  by (cases its) (simp_all add: traverser_def)

lemma traverser_Cons: "traverser cond (it # its) = traverse cond it @ traverser cond its"
  by (simp add: traverser_def)

lemma traverse_all:
  "traverse (\<lambda>_. True) (Item f m cs) = Item f m cs # traverser (\<lambda>_. True) cs"
  by (simp add: traverser_def)

text \<open>
  After the loop of \<open>linearizeData_\<close> in resource mode the map is the map of the item
  visited last.
\<close>

lemma linearize_map:
  "isResourceChart' (fst s) \<Longrightarrow>
     isResourceChart' (fst (snd (linearizeItem d it s)))
     \<and> periodsMap' (fst (snd (linearizeItem d it s)))
         = spec_firstPeriod (last (traverse (\<lambda>_. True) it))"
  "isResourceChart' (fst s) \<Longrightarrow>
     isResourceChart' (fst (snd (linearizeItems d its s)))
     \<and> periodsMap' (fst (snd (linearizeItems d its s)))
         = (if its = [] then periodsMap' (fst s)
            else spec_firstPeriod (last (traverser (\<lambda>_. True) its)))"
proof (induction d it s and d its s rule: linearizeItem_linearizeItems.induct)
  case (1 depth f m cs c linearIndex)
  obtain m' c' where b: "linearizeBody depth linearIndex (Item f m cs) c = (m', c')"
    by (cases "linearizeBody depth linearIndex (Item f m cs) c")
  obtain cs' s' where r: "linearizeItems (depth + 1) cs (c', linearIndex + 1) = (cs', s')"
    by (cases "linearizeItems (depth + 1) cs (c', linearIndex + 1)")
  from "1.prems" have rc: "isResourceChart' c"
    by simp
  have c': "isResourceChart' c'" "periodsMap' c' = spec_firstPeriod (Item f m cs)"
    using linearizeBody_keeps(1) [of depth linearIndex "Item f m cs" c]
      linearizeBody_map [OF rc, of depth linearIndex "Item f m cs"] rc
    by (simp_all add: b)
  have ih: "isResourceChart' (fst s')"
    "periodsMap' (fst s') = (if cs = [] then periodsMap' c'
            else spec_firstPeriod (last (traverser (\<lambda>_. True) cs)))"
    using "1.IH" [OF b [symmetric]] c'(1) unfolding r by simp_all
  have r2: "linearizeItems (Suc depth) cs (c', Suc linearIndex) = (cs', s')"
    using r by simp
  show ?case
    by (simp add: b r2 ih c' traverse_all del: traverse.simps)
next
  case (2 depth s)
  then show ?case
    by simp
next
  case (3 depth it its s)
  obtain it' s' where a: "linearizeItem depth it s = (it', s')"
    by (cases "linearizeItem depth it s")
  obtain its' s'' where r: "linearizeItems depth its s' = (its', s'')"
    by (cases "linearizeItems depth its s'")
  have s': "isResourceChart' (fst s')"
    "periodsMap' (fst s') = spec_firstPeriod (last (traverse (\<lambda>_. True) it))"
    using "3.IH"(1) [OF "3.prems"] unfolding a by simp_all
  have s'': "isResourceChart' (fst s'')"
    "periodsMap' (fst s'') = (if its = [] then periodsMap' (fst s')
            else spec_firstPeriod (last (traverser (\<lambda>_. True) its)))"
    using "3.IH"(2) [OF a [symmetric] s'(1)] unfolding r by simp_all
  show ?case
    by (simp add: a r s' s'' traverser_Cons)
qed

text \<open>
  After a linearization in resource mode over a tree that is not empty, the map holds
  the periods of the item visited last and nothing else: every other item's periods were
  dropped when the map was emptied at the next item.
\<close>

lemma linearizeData_map_of_last_item:
  assumes "isResourceChart' c"
    and "data' c = Some roots"
    and "roots \<noteq> []"
  shows "\<exists>c'. linearizeData' c = Inr c'
     \<and> getPeriodsMap c' = spec_firstPeriod (last (traverser (\<lambda>_. True) roots))"
proof -
  let ?c0 = "c\<lparr>minDate' := NaN, maxDate' := NaN\<rparr>"
  obtain roots' c1 linearIndex where
    l: "linearizeItems 0 roots (?c0, 0) = (roots', (c1, linearIndex))"
    by (cases "linearizeItems 0 roots (?c0, 0)") auto
  have r: "linearizeData' c = Inr (c1\<lparr>data' := Some roots'\<rparr>)"
    using assms(2) by (simp add: linearizeData'_def Let_def l)
  have "isResourceChart' (fst (?c0, 0::nat))"
    using assms(1) by simp
  from linearize_map(2) [OF this, of 0 roots] assms(3)
  have "periodsMap' c1 = spec_firstPeriod (last (traverser (\<lambda>_. True) roots))"
    by (simp add: l)
  then have "getPeriodsMap (c1\<lparr>data' := Some roots'\<rparr>)
               = spec_firstPeriod (last (traverser (\<lambda>_. True) roots))"
    by (simp add: getPeriodsMap_def)
  with r show ?thesis
    by blast
qed

text \<open>
  One resource that declares \<open>P1\<close> starting at 1 and then \<open>P1\<close> starting at 5: the guard
  of the loop over the periods keeps the earlier period.
\<close>

lemma linearizeData_first_duplicate_kept:
  "getPeriodsMap (projr (linearizeData' (data (Controller True)
       [exampleResource [examplePeriod ''P1'' 1, examplePeriod ''P1'' 5]]))) ''P1''
     = Some (examplePeriod ''P1'' 1)"
  by code_simp

text \<open>
  Claim C2 on a tree of two resources in resource mode, the first declaring the period
  \<open>P1\<close>, the second the period \<open>P2\<close>. The map is to reflect the periods of every item, so
  after the linearization a lookup of \<open>P1\<close> is to find the period of the first resource.
  The source empties the map at every item of the traversal: the linearization succeeds,
  \<open>P2\<close> of the resource visited last is found, and \<open>P1\<close> is not in the map.
\<close>

theorem linearizeData_earlier_item_lost:
  "isResourceChart' exampleResourceController
   \<and> data' exampleResourceController
        = Some [exampleResource [examplePeriod ''P1'' 1],
                exampleResource [examplePeriod ''P2'' 5]]
   \<and> \<not> isl (linearizeData' exampleResourceController)
   \<and> getPeriodsMap (projr (linearizeData' exampleResourceController)) ''P2''
        = Some (examplePeriod ''P2'' 5)
   \<and> getPeriodsMap (projr (linearizeData' exampleResourceController)) ''P1'' = None"
  by code_simp

section \<open>Scrolling\<close>

text \<open>
  Claim C8 at the pixel offset 15 on the example controller (cache \<open>[10, 20, 30, 40, 50]\<close>,
  25 pixels available, so \<open>0 < 15 \<le> 50 - 25\<close>). \<open>scrollTo(15)\<close> succeeds and sets the
  start index to the index for the height 15, which is 1; the height of the rows before
  row 1 is 10, so the offset that puts the top of the viewport at pixel 15 is 5. The
  source computes the offset as the item index minus the previous height and leaves the
  vertical offset at \<open>1 - 10 = -9\<close>.
\<close>

theorem scrollTo_offset_evaluation:
  "jlt (Num 0) (Num 15)
   \<and> \<not> jgt (Num 15) (jsub (Num (last (heightCache' exampleController)))
                           (availableHeight' exampleController))
   \<and> \<not> isl (scrollTo exampleConsts exampleController (Num 15))
   \<and> startIndex' (projr (scrollTo exampleConsts exampleController (Num 15))) = Num 1
   \<and> getIndexByHeight' exampleController (Num 15) = Num 1
   \<and> verticalOffset' (projr (scrollTo exampleConsts exampleController (Num 15))) = Num (- 9)
   \<and> jsub (Num 15) (getHeightByIndexes' exampleController (Num 0) (Some (Num 0))) = Num 5"
  by code_simp

end
